theory Spec2Isabelle
  imports Main "HOL-Library.Char_ord" "HOL-Library.List_Lexorder"
begin

section \<open>The DataStore controller of Kamaji\<close>

text \<open>
  A shallow embedding of \<^verbatim>\<open>controllers/datastore_controller.go\<close>: the method
  \<^verbatim>\<open>DataStore.Reconcile\<close> and the watch predicate installed by
  \<^verbatim>\<open>DataStore.SetupWithManager\<close>. Go strings are byte sequences compared bytewise;
  they are \<^typ>\<open>string\<close> here, ordered lexicographically on the byte values.
\<close>

subsection \<open>Data model\<close>

type_synonym bytes = string

text \<open>\<^verbatim>\<open>types.NamespacedName\<close>.\<close>

record NamespacedName =
  Namespace :: string
  Name :: string

text \<open>
  Errors are values. \<^verbatim>\<open>errors.Wrap(err, msg)\<close> keeps its cause and adds a message;
  the other constructors are the outcomes of the cluster-state operations and of the
  content resolver.
\<close>

datatype error =
    NotFound
  | Conflict
  | Cancelled
  | Failure string
  | Wrap error string

text \<open>\<^verbatim>\<open>k8serrors.IsNotFound\<close>.\<close>

fun IsNotFound :: "error \<Rightarrow> bool" where
  "IsNotFound NotFound = True"
| "IsNotFound _ = False"

text \<open>
  A content reference points to a secret-like object (namespace, name) and a key in it.
  The fields of the descriptor are those which \<^verbatim>\<open>Reconcile\<close> reads:
  \<^verbatim>\<open>ds.Spec.TLSConfig.CertificateAuthority.Certificate\<close>,
  \<^verbatim>\<open>ds.Spec.TLSConfig.ClientCertificate.Certificate\<close>,
  \<^verbatim>\<open>ds.Spec.TLSConfig.ClientCertificate.PrivateKey\<close> and \<^verbatim>\<open>ds.Status.UsedBy\<close>.
\<close>

datatype ContentRef = SecretKeyRef string string string

record CertKeyPair =
  Certificate :: ContentRef
  PrivateKey :: ContentRef

record TLSConfig =
  CertificateAuthority :: CertKeyPair
  ClientCertificate :: CertKeyPair

record DataStoreSpec =
  TLSConfig :: TLSConfig

record DataStoreStatus =
  UsedBy :: "string list"

record DataStore =
  ObjectMeta :: NamespacedName
  Spec :: DataStoreSpec
  Status :: DataStoreStatus

record TenantControlPlane =
  GetNamespace :: string
  GetName :: string

text \<open>\<^verbatim>\<open>event.GenericEvent{Object: &tcp}\<close>.\<close>

datatype GenericEvent = GenericEvent TenantControlPlane

fun Object :: "GenericEvent \<Rightarrow> TenantControlPlane" where
  "Object (GenericEvent tcp) = tcp"

text \<open>\<^verbatim>\<open>reconcile.Request\<close> and \<^verbatim>\<open>reconcile.Result\<close>.\<close>

record Request =
  NamespacedName :: NamespacedName

record Result =
  Requeue :: bool
  RequeueAfter :: int

definition emptyResult :: Result where
  "emptyResult = \<lparr>Requeue = False, RequeueAfter = 0\<rparr>"

subsection \<open>The collaborators: cluster state, content resolver, channel\<close>

text \<open>
  Every call that \<^verbatim>\<open>Reconcile\<close> makes on a collaborator is recorded, in order, in
  the field \<open>calls\<close> of the state.
\<close>

datatype call =
    CallGet NamespacedName
  | CallGetContent ContentRef
  | CallList
  | CallStatusUpdate DataStore
  | CallSend GenericEvent

text \<open>
  The state that \<^verbatim>\<open>Reconcile\<close> reads and writes: the stored descriptors, the
  dependent workloads that the list operation returns (in the order it returns them),
  the content resolver, the failures of the three cluster-state operations (for one with
  \<open>Some e\<close> the operation fails with \<open>e\<close>), the events delivered on
  \<^verbatim>\<open>TenantControlPlaneTrigger\<close> (oldest first), and the calls made so far.
\<close>

record world =
  dataStores :: "NamespacedName \<rightharpoonup> DataStore"
  tenantControlPlanes :: "TenantControlPlane list"
  contents :: "ContentRef \<Rightarrow> error + bytes"
  getFault :: "error option"
  listFault :: "error option"
  updateFault :: "error option"
  channel :: "GenericEvent list"
  calls :: "call list"

definition record_call :: "call \<Rightarrow> world \<Rightarrow> world" where
  "record_call c w = w\<lparr>calls := calls w @ [c]\<rparr>"

text \<open>
  Modelled from the spec: the cluster-state store operations of the controller-runtime
  client, get-by-identity, list-all-of-kind and update-status-subresource, each with the
  outcomes success, not-found, conflict or other error. A get of an identity that is not
  stored is not-found; a status update writes the status of the object it is given into
  the stored object of the same identity, and a failed one writes nothing.
\<close>

definition client_Get :: "world \<Rightarrow> NamespacedName \<Rightarrow> (error + DataStore) \<times> world" where
  "client_Get w key =
     (let w' = record_call (CallGet key) w in
      case getFault w of
        Some err \<Rightarrow> (Inl err, w')
      | None \<Rightarrow>
          (case dataStores w key of
             None \<Rightarrow> (Inl NotFound, w')
           | Some ds \<Rightarrow> (Inr (ds\<lparr>ObjectMeta := key\<rparr>), w')))"

definition client_List :: "world \<Rightarrow> (error + TenantControlPlane list) \<times> world" where
  "client_List w =
     (let w' = record_call CallList w in
      case listFault w of
        Some err \<Rightarrow> (Inl err, w')
      | None \<Rightarrow> (Inr (tenantControlPlanes w), w'))"

definition client_Status_Update :: "world \<Rightarrow> DataStore \<Rightarrow> error option \<times> world" where
  "client_Status_Update w ds =
     (let w' = record_call (CallStatusUpdate ds) w in
      case updateFault w of
        Some err \<Rightarrow> (Some err, w')
      | None \<Rightarrow>
          (case dataStores w (ObjectMeta ds) of
             None \<Rightarrow> (Some NotFound, w')
           | Some old \<Rightarrow>
               (None, w'\<lparr>dataStores := (dataStores w)(ObjectMeta ds \<mapsto> old\<lparr>Status := Status ds\<rparr>)\<rparr>)))"

text \<open>
  Modelled from the spec: the content resolver \<^verbatim>\<open>ContentRef.GetContent\<close> of the API
  package, which resolves a stored-secret reference to bytes or fails.
\<close>

definition GetContent :: "world \<Rightarrow> ContentRef \<Rightarrow> (error + bytes) \<times> world" where
  "GetContent w ref = (contents w ref, record_call (CallGetContent ref) w)"

text \<open>
  The send \<^verbatim>\<open>r.TenantControlPlaneTrigger <- ev\<close>. It has no failure outcome, only
  delay, and the receiving side drains the channel: the event is delivered.
\<close>

definition send :: "world \<Rightarrow> GenericEvent \<Rightarrow> world" where
  "send w ev = record_call (CallSend ev) (w\<lparr>channel := channel w @ [ev]\<rparr>)"

text \<open>
  Modelled from the spec: the helper \<^verbatim>\<open>getNamespacedName\<close> of the controllers package,
  and \<^verbatim>\<open>NamespacedName.String\<close>, which give the identity "namespace/name".
\<close>

definition getNamespacedName :: "string \<Rightarrow> string \<Rightarrow> NamespacedName" where
  "getNamespacedName namespace name = \<lparr>Namespace = namespace, Name = name\<rparr>"

definition String :: "NamespacedName \<Rightarrow> string" where
  "String n = Namespace n @ ''/'' @ Name n"

text \<open>
  \<^verbatim>\<open>sets.String\<close>: \<^verbatim>\<open>sets.NewString()\<close> is the empty set, \<^verbatim>\<open>Insert\<close> adds an element
  and \<^verbatim>\<open>List\<close> returns the elements as a sorted slice.
\<close>

definition sets_NewString :: "string set" where
  "sets_NewString = {}"

definition sets_Insert :: "string \<Rightarrow> string set \<Rightarrow> string set" where
  "sets_Insert s S = insert s S"

definition sets_List :: "string set \<Rightarrow> string list" where
  "sets_List S = sorted_list_of_set S"

subsection \<open>Reconcile\<close>

text \<open>The loop of lines 65 to 67, which fills the set of identities.\<close>

fun insert_items :: "TenantControlPlane list \<Rightarrow> string set \<Rightarrow> string set" where
  "insert_items [] tcpSets = tcpSets"
| "insert_items (tcp # items) tcpSets =
     insert_items items
       (sets_Insert (String (getNamespacedName (GetNamespace tcp) (GetName tcp))) tcpSets)"

text \<open>The loop of lines 75 to 79, which sends one event for each item of the list.\<close>

fun trigger_items :: "world \<Rightarrow> TenantControlPlane list \<Rightarrow> world" where
  "trigger_items w [] = w"
| "trigger_items w (i # items) = trigger_items (send w (GenericEvent i)) items"

definition Reconcile :: "world \<Rightarrow> Request \<Rightarrow> (Result \<times> error option) \<times> world" where
  "Reconcile w request =
     (case client_Get w (NamespacedName request) of
        (Inl err, w1) \<Rightarrow>
          if IsNotFound err then ((emptyResult, None), w1)
          else ((emptyResult, Some err), w1)
      | (Inr ds, w1) \<Rightarrow>
     (case GetContent w1 (Certificate (CertificateAuthority (TLSConfig (Spec ds)))) of
        (Inl err, w2) \<Rightarrow>
          ((emptyResult, Some (Wrap err ''invalid Certificate Authority data'')), w2)
      | (Inr _, w2) \<Rightarrow>
     (case GetContent w2 (Certificate (ClientCertificate (TLSConfig (Spec ds)))) of
        (Inl err, w3) \<Rightarrow>
          ((emptyResult, Some (Wrap err ''invalid Client Certificate data'')), w3)
      | (Inr _, w3) \<Rightarrow>
     (case GetContent w3 (PrivateKey (ClientCertificate (TLSConfig (Spec ds)))) of
        (Inl err, w4) \<Rightarrow>
          ((emptyResult, Some (Wrap err ''invalid Client Certificate data'')), w4)
      | (Inr _, w4) \<Rightarrow>
     (case client_List w4 of
        (Inl err, w5) \<Rightarrow> ((emptyResult, Some err), w5)
      | (Inr tcpList, w5) \<Rightarrow>
     (let tcpSets = insert_items tcpList sets_NewString;
          ds' = ds\<lparr>Status := (Status ds)\<lparr>UsedBy := sets_List tcpSets\<rparr>\<rparr> in
      case client_Status_Update w5 ds' of
        (Some err, w6) \<Rightarrow> ((emptyResult, Some err), w6)
      | (None, w6) \<Rightarrow> ((emptyResult, None), trigger_items w6 tcpList)))))))"

subsection \<open>The watch predicate\<close>

text \<open>The reconciler's configuration: \<^verbatim>\<open>ResourceName\<close> is the name of the watched object.\<close>

record DataStoreReconciler =
  ResourceName :: string

text \<open>
  The function given to \<^verbatim>\<open>predicate.NewPredicateFuncs\<close> in
  \<^verbatim>\<open>SetupWithManager\<close>: \<^verbatim>\<open>object.GetName() == r.ResourceName\<close>.
\<close>

definition watch_filter :: "DataStoreReconciler \<Rightarrow> DataStore \<Rightarrow> bool" where
  "watch_filter r object = (Name (ObjectMeta object) = ResourceName r)"

text \<open>
  Modelled from the spec: the surrounding framework, which applies the predicate to the
  object of a create, delete or generic notification and to the new object of an update,
  and invokes \<^verbatim>\<open>Reconcile\<close> with the identity of the object only when the predicate
  admits it. A dropped notification gives no result and leaves the state as it is.
\<close>

datatype change =
    Create DataStore
  | Update DataStore DataStore
  | Delete DataStore
  | Generic DataStore

fun change_object :: "change \<Rightarrow> DataStore" where
  "change_object (Create object) = object"
| "change_object (Update objectOld objectNew) = objectNew"
| "change_object (Delete object) = object"
| "change_object (Generic object) = object"

definition admits :: "DataStoreReconciler \<Rightarrow> change \<Rightarrow> bool" where
  "admits r ev = watch_filter r (change_object ev)"

definition on_change ::
  "DataStoreReconciler \<Rightarrow> world \<Rightarrow> change \<Rightarrow> (Result \<times> error option) option \<times> world" where
  "on_change r w ev =
     (if admits r ev
      then (case Reconcile w \<lparr>NamespacedName = ObjectMeta (change_object ev)\<rparr> of
              (res, w') \<Rightarrow> (Some res, w'))
      else (None, w))"

subsection \<open>Observations of one cycle\<close>

text \<open>The identity "namespace/name" of a dependent workload, as line 66 computes it.\<close>

definition identity :: "TenantControlPlane \<Rightarrow> string" where
  "identity tcp = String (getNamespacedName (GetNamespace tcp) (GetName tcp))"

text \<open>The events sent and the calls made between a state and a later one.\<close>

definition emitted :: "world \<Rightarrow> world \<Rightarrow> GenericEvent list" where
  "emitted w w' = drop (length (channel w)) (channel w')"

definition made :: "world \<Rightarrow> world \<Rightarrow> call list" where
  "made w w' = drop (length (calls w)) (calls w')"

text \<open>The stored \<^verbatim>\<open>status.usedBy\<close> of the descriptor with a given identity.\<close>

definition usedBy_at :: "world \<Rightarrow> NamespacedName \<Rightarrow> string list option" where
  "usedBy_at w key = map_option (\<lambda>ds. UsedBy (Status ds)) (dataStores w key)"

text \<open>The content references resolved by a sequence of calls, in order.\<close>

fun resolved :: "call list \<Rightarrow> ContentRef list" where
  "resolved [] = []"
| "resolved (CallGetContent ref # cs) = ref # resolved cs"
| "resolved (_ # cs) = resolved cs"

fun is_send :: "call \<Rightarrow> bool" where
  "is_send (CallSend _) = True"
| "is_send _ = False"

subsection \<open>Example states\<close>

definition key0 :: NamespacedName where
  "key0 = \<lparr>Namespace = [], Name = ''store-a''\<rparr>"

definition req0 :: Request where
  "req0 = \<lparr>NamespacedName = key0\<rparr>"

definition ca0 :: ContentRef where
  "ca0 = SecretKeyRef ''kamaji-system'' ''store-ca'' ''ca.crt''"

definition crt0 :: ContentRef where
  "crt0 = SecretKeyRef ''kamaji-system'' ''store-client'' ''tls.crt''"

definition pk0 :: ContentRef where
  "pk0 = SecretKeyRef ''kamaji-system'' ''store-client'' ''tls.key''"

definition ds0 :: DataStore where
  "ds0 = \<lparr>ObjectMeta = key0,
          Spec = \<lparr>TLSConfig = \<lparr>CertificateAuthority = \<lparr>Certificate = ca0, PrivateKey = ca0\<rparr>,
                                ClientCertificate = \<lparr>Certificate = crt0, PrivateKey = pk0\<rparr>\<rparr>\<rparr>,
          Status = \<lparr>UsedBy = [''old/x'']\<rparr>\<rparr>"

definition tcp_a :: TenantControlPlane where
  "tcp_a = \<lparr>GetNamespace = ''ns1'', GetName = ''a''\<rparr>"

definition tcp_b :: TenantControlPlane where
  "tcp_b = \<lparr>GetNamespace = ''ns2'', GetName = ''b''\<rparr>"

text \<open>Every operation succeeds; the list returns \<open>ns2/b\<close> before \<open>ns1/a\<close>.\<close>

definition w_ok :: world where
  "w_ok = \<lparr>dataStores = [key0 \<mapsto> ds0],
           tenantControlPlanes = [tcp_b, tcp_a],
           contents = (\<lambda>_. Inr ''PEM''),
           getFault = None, listFault = None, updateFault = None,
           channel = [], calls = []\<rparr>"

text \<open>The list returns \<open>ns1/a\<close> twice.\<close>

definition w_dup :: world where
  "w_dup = w_ok\<lparr>tenantControlPlanes := [tcp_a, tcp_b, tcp_a]\<rparr>"

text \<open>No descriptor is stored.\<close>

definition w_absent :: world where
  "w_absent = w_ok\<lparr>dataStores := Map.empty\<rparr>"

text \<open>One of the three materials does not resolve.\<close>

definition w_ca_fails :: world where
  "w_ca_fails =
     w_ok\<lparr>contents := (\<lambda>ref. if ref = ca0 then Inl (Failure ''no secret'') else Inr ''PEM'')\<rparr>"

definition w_crt_fails :: world where
  "w_crt_fails =
     w_ok\<lparr>contents := (\<lambda>ref. if ref = crt0 then Inl (Failure ''no secret'') else Inr ''PEM'')\<rparr>"

definition w_pk_fails :: world where
  "w_pk_fails =
     w_ok\<lparr>contents := (\<lambda>ref. if ref = pk0 then Inl (Failure ''no secret'') else Inr ''PEM'')\<rparr>"

text \<open>The status write meets a conflict.\<close>

definition w_conflict :: world where
  "w_conflict = w_ok\<lparr>updateFault := Some Conflict\<rparr>"

text \<open>The reconciler watches \<open>store-a\<close>; another descriptor is named \<open>store-b\<close>.\<close>

definition r0 :: DataStoreReconciler where
  "r0 = \<lparr>ResourceName = ''store-a''\<rparr>"

definition ds_other :: DataStore where
  "ds_other = ds0\<lparr>ObjectMeta := \<lparr>Namespace = [], Name = ''store-b''\<rparr>\<rparr>"

section \<open>Properties\<close>

subsection \<open>Auxiliary facts\<close>

lemma insert_items_set: "insert_items items S = S \<union> identity ` set items"
  by (induction items arbitrary: S) (auto simp: sets_Insert_def identity_def)

lemma index_eq:
  "sets_List (insert_items items sets_NewString) = sort (remdups (map identity items))"
  by (simp add: insert_items_set sets_List_def sets_NewString_def
      sorted_list_of_set_sort_remdups flip: set_map)

lemma trigger_items_eq:
  "trigger_items w items =
     w\<lparr>channel := channel w @ map GenericEvent items,
       calls := calls w @ map (\<lambda>i. CallSend (GenericEvent i)) items\<rparr>"
  by (induction items arbitrary: w) (simp_all add: send_def record_call_def)

lemmas ops = client_Get_def GetContent_def client_List_def client_Status_Update_def
  record_call_def Let_def trigger_items_eq

lemma resolved_append: "resolved (xs @ ys) = resolved xs @ resolved ys"
  by (induction xs rule: resolved.induct) simp_all

lemma resolved_sends: "resolved (map (\<lambda>i. CallSend (GenericEvent i)) items) = []"
  by (induction items) simp_all

text \<open>The cycle in which every operation succeeds, in closed form.\<close>

lemma Reconcile_ok:
  assumes "getFault w = None" and "dataStores w (NamespacedName request) = Some ds"
    and "contents w (Certificate (CertificateAuthority (TLSConfig (Spec ds)))) = Inr a"
    and "contents w (Certificate (ClientCertificate (TLSConfig (Spec ds)))) = Inr b"
    and "contents w (PrivateKey (ClientCertificate (TLSConfig (Spec ds)))) = Inr c"
    and "listFault w = None" and "updateFault w = None"
  shows "Reconcile w request =
    ((emptyResult, None),
     w\<lparr>dataStores := (dataStores w)(NamespacedName request \<mapsto>
          ds\<lparr>Status := (Status ds)\<lparr>UsedBy :=
            sets_List (insert_items (tenantControlPlanes w) sets_NewString)\<rparr>\<rparr>),
       channel := channel w @ map GenericEvent (tenantControlPlanes w),
       calls := calls w @ [CallGet (NamespacedName request),
          CallGetContent (Certificate (CertificateAuthority (TLSConfig (Spec ds)))),
          CallGetContent (Certificate (ClientCertificate (TLSConfig (Spec ds)))),
          CallGetContent (PrivateKey (ClientCertificate (TLSConfig (Spec ds)))),
          CallList,
          CallStatusUpdate (ds\<lparr>ObjectMeta := NamespacedName request,
             Status := (Status ds)\<lparr>UsedBy :=
               sets_List (insert_items (tenantControlPlanes w) sets_NewString)\<rparr>\<rparr>)]
          @ map (\<lambda>i. CallSend (GenericEvent i)) (tenantControlPlanes w)\<rparr>)"
  using assms by (simp add: Reconcile_def ops)

subsection \<open>The reverse index of a successful cycle\<close>

text \<open>
  Claim C1. For every descriptor that the get operation returns, whose CA certificate,
  client certificate and client private key all resolve, and for which the list and the
  status write succeed, \<^verbatim>\<open>Reconcile\<close> returns success (the empty result and no error),
  and afterwards the stored \<^verbatim>\<open>status.usedBy\<close> of the descriptor is the list without
  duplicates, in lexicographic order, of the identities "namespace/name" of all the
  dependent workloads that the list operation returned.
\<close>

theorem Reconcile_usedBy_sorted_index:
  assumes "fst (client_Get w (NamespacedName request)) = Inr ds"
    and "contents w (Certificate (CertificateAuthority (TLSConfig (Spec ds)))) = Inr a"
    and "contents w (Certificate (ClientCertificate (TLSConfig (Spec ds)))) = Inr b"
    and "contents w (PrivateKey (ClientCertificate (TLSConfig (Spec ds)))) = Inr c"
    and "listFault w = None" and "updateFault w = None"
  shows "fst (Reconcile w request) = (\<lparr>Requeue = False, RequeueAfter = 0\<rparr>, None) \<and>
    (\<exists>l. usedBy_at (snd (Reconcile w request)) (NamespacedName request) = Some l \<and>
       sorted l \<and> distinct l \<and> set l = identity ` set (tenantControlPlanes w))"
proof -
  from assms(1) obtain stored where g: "getFault w = None"
    and s: "dataStores w (NamespacedName request) = Some stored"
    and d: "ds = stored\<lparr>ObjectMeta := NamespacedName request\<rparr>"
    by (auto simp: client_Get_def Let_def split: option.splits)
  have "Spec stored = Spec ds"
    using d by simp
  with assms have r:
    "contents w (Certificate (CertificateAuthority (TLSConfig (Spec stored)))) = Inr a"
    "contents w (Certificate (ClientCertificate (TLSConfig (Spec stored)))) = Inr b"
    "contents w (PrivateKey (ClientCertificate (TLSConfig (Spec stored)))) = Inr c"
    by simp_all
  show ?thesis
    by (simp add: Reconcile_ok [OF g s r assms(5,6)] usedBy_at_def index_eq emptyResult_def)
qed

theorem Reconcile_usedBy_sorted_index_witness:
  "fst (client_Get w_ok (NamespacedName req0)) = Inr ds0 \<and>
   contents w_ok (Certificate (CertificateAuthority (TLSConfig (Spec ds0)))) = Inr ''PEM'' \<and>
   listFault w_ok = None \<and> updateFault w_ok = None \<and>
   fst (Reconcile w_ok req0) = (\<lparr>Requeue = False, RequeueAfter = 0\<rparr>, None) \<and>
   (\<exists>l. usedBy_at (snd (Reconcile w_ok req0)) (NamespacedName req0) = Some l \<and>
      sorted l \<and> distinct l \<and> set l = identity ` set (tenantControlPlanes w_ok))"
proof -
  have h1: "fst (client_Get w_ok (NamespacedName req0)) = Inr ds0"
    by (simp add: client_Get_def Let_def w_ok_def req0_def ds0_def)
  have h2: "contents w_ok (Certificate (CertificateAuthority (TLSConfig (Spec ds0)))) = Inr ''PEM''"
    and h3: "contents w_ok (Certificate (ClientCertificate (TLSConfig (Spec ds0)))) = Inr ''PEM''"
    and h4: "contents w_ok (PrivateKey (ClientCertificate (TLSConfig (Spec ds0)))) = Inr ''PEM''"
    and h5: "listFault w_ok = None" and h6: "updateFault w_ok = None"
    by (simp_all add: w_ok_def)
  from Reconcile_usedBy_sorted_index [OF h1 h2 h3 h4 h5 h6] h1 h2 h5 h6
  show ?thesis by blast
qed

subsection \<open>The events of a successful cycle\<close>

text \<open>
  Claim C10. In every successful cycle in which the list operation was called, the
  events sent correspond one to one, and in the same order, to the entries of the list
  that the list operation returned: an entry that occurs twice gives two events, and the
  entries are neither deduplicated nor reordered before sending.
\<close>

theorem Reconcile_events_follow_raw_list:
  assumes "snd (fst (Reconcile w request)) = None"
    and "CallList \<in> set (made w (snd (Reconcile w request)))"
  shows "emitted w (snd (Reconcile w request)) = map GenericEvent (tenantControlPlanes w)"
  using assms
  by (auto simp add: Reconcile_def ops made_def emitted_def
      split: option.splits sum.splits if_splits)

theorem Reconcile_events_follow_raw_list_witness:
  "snd (fst (Reconcile w_dup req0)) = None \<and>
   CallList \<in> set (made w_dup (snd (Reconcile w_dup req0))) \<and>
   emitted w_dup (snd (Reconcile w_dup req0)) =
     [GenericEvent tcp_a, GenericEvent tcp_b, GenericEvent tcp_a]"
proof -
  have h1: "snd (fst (Reconcile w_dup req0)) = None"
    by (simp add: Reconcile_def ops w_dup_def w_ok_def req0_def ds0_def)
  have h2: "CallList \<in> set (made w_dup (snd (Reconcile w_dup req0)))"
    by (simp add: Reconcile_def ops made_def w_dup_def w_ok_def req0_def ds0_def)
  have "tenantControlPlanes w_dup = [tcp_a, tcp_b, tcp_a]"
    by (simp add: w_dup_def)
  with Reconcile_events_follow_raw_list [OF h1 h2] h1 h2 show ?thesis
    by simp
qed

subsection \<open>A descriptor that does not exist\<close>

text \<open>
  Claim C6. When the get operation answers not-found for the requested identity,
  \<^verbatim>\<open>Reconcile\<close> returns success with no requeue, and the get is the only call it makes:
  it resolves no material, lists nothing, writes no status and sends no event.
\<close>

theorem Reconcile_not_found_is_noop:
  assumes "fst (client_Get w (NamespacedName request)) = Inl err" and "IsNotFound err"
  shows "fst (Reconcile w request) = (\<lparr>Requeue = False, RequeueAfter = 0\<rparr>, None) \<and>
    made w (snd (Reconcile w request)) = [CallGet (NamespacedName request)] \<and>
    dataStores (snd (Reconcile w request)) = dataStores w \<and>
    channel (snd (Reconcile w request)) = channel w"
  using assms
  by (auto simp add: Reconcile_def ops made_def emptyResult_def split: option.splits)

theorem Reconcile_not_found_is_noop_witness:
  "fst (client_Get w_absent (NamespacedName req0)) = Inl NotFound \<and> IsNotFound NotFound \<and>
   fst (Reconcile w_absent req0) = (\<lparr>Requeue = False, RequeueAfter = 0\<rparr>, None) \<and>
   made w_absent (snd (Reconcile w_absent req0)) = [CallGet (NamespacedName req0)] \<and>
   dataStores (snd (Reconcile w_absent req0)) = dataStores w_absent \<and>
   channel (snd (Reconcile w_absent req0)) = channel w_absent"
proof -
  have h1: "fst (client_Get w_absent (NamespacedName req0)) = Inl NotFound"
    by (simp add: client_Get_def Let_def w_absent_def w_ok_def)
  have h2: "IsNotFound NotFound"
    by simp
  from Reconcile_not_found_is_noop [OF h1 h2] h1 h2 show ?thesis
    by blast
qed

subsection \<open>The order of validation\<close>

text \<open>
  Claim C5. Once the descriptor is fetched, the materials are resolved in the order CA
  certificate, client certificate, client private key, and the validation stops at the
  first one that fails: when the CA certificate fails only it was resolved, when the
  client certificate fails only these two were, and otherwise all three were, in this
  order.
\<close>

theorem Reconcile_resolves_in_order_fail_fast:
  assumes "fst (client_Get w (NamespacedName request)) = Inr ds"
  shows "resolved (made w (snd (Reconcile w request))) =
    (if isl (contents w (Certificate (CertificateAuthority (TLSConfig (Spec ds)))))
     then [Certificate (CertificateAuthority (TLSConfig (Spec ds)))]
     else if isl (contents w (Certificate (ClientCertificate (TLSConfig (Spec ds)))))
     then [Certificate (CertificateAuthority (TLSConfig (Spec ds))),
           Certificate (ClientCertificate (TLSConfig (Spec ds)))]
     else [Certificate (CertificateAuthority (TLSConfig (Spec ds))),
           Certificate (ClientCertificate (TLSConfig (Spec ds))),
           PrivateKey (ClientCertificate (TLSConfig (Spec ds)))])"
  using assms
  by (auto simp add: Reconcile_def ops made_def resolved_append resolved_sends
      split: option.splits sum.splits)

theorem Reconcile_resolves_in_order_fail_fast_witness:
  "fst (client_Get w_crt_fails (NamespacedName req0)) = Inr ds0 \<and>
   resolved (made w_crt_fails (snd (Reconcile w_crt_fails req0))) = [ca0, crt0]"
proof -
  have h1: "fst (client_Get w_crt_fails (NamespacedName req0)) = Inr ds0"
    by (simp add: client_Get_def Let_def w_crt_fails_def w_ok_def req0_def ds0_def)
  have "\<not> isl (contents w_crt_fails ca0)" and "isl (contents w_crt_fails crt0)"
    by (simp_all add: w_crt_fails_def ca0_def crt0_def)
  with Reconcile_resolves_in_order_fail_fast [OF h1] h1 show ?thesis
    by (simp add: ds0_def)
qed

subsection \<open>Facts about every cycle\<close>

lemma fail_channel:
  "snd (fst (Reconcile w request)) \<noteq> None \<Longrightarrow>
   channel (snd (Reconcile w request)) = channel w"
  by (simp add: Reconcile_def ops split: option.splits sum.splits if_splits)

lemma fail_store:
  "snd (fst (Reconcile w request)) \<noteq> None \<Longrightarrow>
   dataStores (snd (Reconcile w request)) = dataStores w"
  by (simp add: Reconcile_def ops split: option.splits sum.splits if_splits)

lemma fail_nosend:
  "snd (fst (Reconcile w request)) \<noteq> None \<Longrightarrow>
   c \<in> set (made w (snd (Reconcile w request))) \<Longrightarrow> \<not> is_send c"
  by (auto simp add: Reconcile_def ops made_def split: option.splits sum.splits if_splits)

lemma usedBy_cases:
  "usedBy_at (snd (Reconcile w request)) key = usedBy_at w key \<or>
   usedBy_at (snd (Reconcile w request)) key =
     Some (sort (remdups (map identity (tenantControlPlanes w))))"
  by (simp add: Reconcile_def ops usedBy_at_def index_eq
      split: option.splits sum.splits if_splits)

lemma emitted_nonempty:
  assumes "emitted w (snd (Reconcile w request)) \<noteq> []"
  shows "\<exists>ds a b c. getFault w = None \<and> dataStores w (NamespacedName request) = Some ds \<and>
     contents w (Certificate (CertificateAuthority (TLSConfig (Spec ds)))) = Inr a \<and>
     contents w (Certificate (ClientCertificate (TLSConfig (Spec ds)))) = Inr b \<and>
     contents w (PrivateKey (ClientCertificate (TLSConfig (Spec ds)))) = Inr c \<and>
     listFault w = None \<and> updateFault w = None"
  using assms
  by (simp add: Reconcile_def ops emitted_def split: option.splits sum.splits if_splits)

lemma listed_ok:
  assumes "snd (fst (Reconcile w request)) = None"
    and "CallList \<in> set (made w (snd (Reconcile w request)))"
  shows "\<exists>ds a b c. getFault w = None \<and> dataStores w (NamespacedName request) = Some ds \<and>
     contents w (Certificate (CertificateAuthority (TLSConfig (Spec ds)))) = Inr a \<and>
     contents w (Certificate (ClientCertificate (TLSConfig (Spec ds)))) = Inr b \<and>
     contents w (PrivateKey (ClientCertificate (TLSConfig (Spec ds)))) = Inr c \<and>
     listFault w = None \<and> updateFault w = None"
  using assms
  by (simp add: Reconcile_def ops made_def split: option.splits sum.splits if_splits)

lemma Reconcile_calls_irrelevant:
  "fst (Reconcile (w\<lparr>calls := cs\<rparr>) request) = fst (Reconcile w request)"
  "dataStores (snd (Reconcile (w\<lparr>calls := cs\<rparr>) request)) =
     dataStores (snd (Reconcile w request))"
  "channel (snd (Reconcile (w\<lparr>calls := cs\<rparr>) request)) = channel (snd (Reconcile w request))"
  by (simp_all add: Reconcile_def ops split: option.splits sum.splits if_splits)

lemma Reconcile_outcomes:
  "(\<exists>cs. snd (Reconcile w request) = w\<lparr>calls := cs\<rparr>) \<or>
   (\<exists>ds a b c. getFault w = None \<and> dataStores w (NamespacedName request) = Some ds \<and>
     contents w (Certificate (CertificateAuthority (TLSConfig (Spec ds)))) = Inr a \<and>
     contents w (Certificate (ClientCertificate (TLSConfig (Spec ds)))) = Inr b \<and>
     contents w (PrivateKey (ClientCertificate (TLSConfig (Spec ds)))) = Inr c \<and>
     listFault w = None \<and> updateFault w = None)"
  by (simp add: Reconcile_def ops split: option.splits sum.splits if_splits) blast

lemma trigger_items_dataStores: "dataStores (trigger_items w items) = dataStores w"
  by (simp add: trigger_items_eq)

lemma sort_remdups_id_iff:
  fixes xs :: "'a::linorder list"
  shows "sort (remdups xs) = xs \<longleftrightarrow> sorted xs \<and> distinct xs"
proof
  assume e: "sort (remdups xs) = xs"
  have "sorted (sort (remdups xs))" and "distinct (sort (remdups xs))"
    by simp_all
  then show "sorted xs \<and> distinct xs"
    by (simp add: e)
next
  assume "sorted xs \<and> distinct xs"
  then show "sort (remdups xs) = xs"
    by (simp add: distinct_remdups_id sort_key_id_if_sorted)
qed

subsection \<open>Failing cycles\<close>

text \<open>
  Claim C4. A cycle that fails, at validation, at the list or at the status write, sends
  no event and leaves the stored descriptors as they were. And after any cycle, the stored
  \<^verbatim>\<open>status.usedBy\<close> of a descriptor is either its prior value or the complete new index
  (the sorted list without duplicates of all listed identities), never a part of it.
\<close>

theorem Reconcile_failure_sends_nothing_writes_nothing:
  "(snd (fst (Reconcile w request)) \<noteq> None \<longrightarrow>
      emitted w (snd (Reconcile w request)) = [] \<and>
      (\<forall>c \<in> set (made w (snd (Reconcile w request))). \<not> is_send c) \<and>
      dataStores (snd (Reconcile w request)) = dataStores w) \<and>
   (\<forall>key. usedBy_at (snd (Reconcile w request)) key = usedBy_at w key \<or>
      usedBy_at (snd (Reconcile w request)) key =
        Some (sort (remdups (map identity (tenantControlPlanes w)))))"
proof (intro conjI impI allI ballI)
  assume f: "snd (fst (Reconcile w request)) \<noteq> None"
  show "emitted w (snd (Reconcile w request)) = []"
    by (simp add: emitted_def fail_channel [OF f])
  show "dataStores (snd (Reconcile w request)) = dataStores w"
    by (rule fail_store [OF f])
  show "\<not> is_send c" if "c \<in> set (made w (snd (Reconcile w request)))" for c
    using f that by (rule fail_nosend)
next
  fix key
  show "usedBy_at (snd (Reconcile w request)) key = usedBy_at w key \<or>
      usedBy_at (snd (Reconcile w request)) key =
        Some (sort (remdups (map identity (tenantControlPlanes w))))"
    by (rule usedBy_cases)
qed

theorem Reconcile_failure_sends_nothing_writes_nothing_witness:
  "snd (fst (Reconcile w_conflict req0)) = Some Conflict \<and>
   emitted w_conflict (snd (Reconcile w_conflict req0)) = [] \<and>
   dataStores (snd (Reconcile w_conflict req0)) = dataStores w_conflict \<and>
   usedBy_at (snd (Reconcile w_conflict req0)) key0 = Some [''old/x'']"
proof -
  have h: "snd (fst (Reconcile w_conflict req0)) = Some Conflict"
    by (simp add: Reconcile_def ops w_conflict_def w_ok_def req0_def ds0_def)
  then have f: "snd (fst (Reconcile w_conflict req0)) \<noteq> None"
    by simp
  have u: "usedBy_at w_conflict key0 = Some [''old/x'']"
    by (simp add: usedBy_at_def w_conflict_def w_ok_def ds0_def)
  from Reconcile_failure_sends_nothing_writes_nothing [of w_conflict req0] f h u
  show ?thesis
    by (simp add: usedBy_at_def)
qed

subsection \<open>Idempotence\<close>

text \<open>
  Claim C7. For every state, a second \<^verbatim>\<open>Reconcile\<close> of the same identity, run on the
  state that the first one left, returns the same result, leaves the stored descriptors
  (hence every \<^verbatim>\<open>status.usedBy\<close>) as the first one left them, and sends the same
  sequence of events as the first one did.
\<close>

theorem Reconcile_idempotent:
  "fst (Reconcile (snd (Reconcile w request)) request) = fst (Reconcile w request) \<and>
   dataStores (snd (Reconcile (snd (Reconcile w request)) request)) =
     dataStores (snd (Reconcile w request)) \<and>
   emitted (snd (Reconcile w request)) (snd (Reconcile (snd (Reconcile w request)) request)) =
     emitted w (snd (Reconcile w request))"
proof -
  consider (quiet) cs where "snd (Reconcile w request) = w\<lparr>calls := cs\<rparr>"
    | (full) ds a b c where "getFault w = None" "dataStores w (NamespacedName request) = Some ds"
      "contents w (Certificate (CertificateAuthority (TLSConfig (Spec ds)))) = Inr a"
      "contents w (Certificate (ClientCertificate (TLSConfig (Spec ds)))) = Inr b"
      "contents w (PrivateKey (ClientCertificate (TLSConfig (Spec ds)))) = Inr c"
      "listFault w = None" "updateFault w = None"
    using Reconcile_outcomes [of w request] by blast
  then show ?thesis
  proof cases
    case quiet
    show ?thesis
      by (simp add: quiet Reconcile_calls_irrelevant emitted_def)
  next
    case full
    define l where "l = sets_List (insert_items (tenantControlPlanes w) sets_NewString)"
    define ds1 where "ds1 = ds\<lparr>Status := (Status ds)\<lparr>UsedBy := l\<rparr>\<rparr>"
    define w1 where "w1 = snd (Reconcile w request)"
    have w1: "w1 = w\<lparr>dataStores := (dataStores w)(NamespacedName request \<mapsto> ds1),
       channel := channel w @ map GenericEvent (tenantControlPlanes w),
       calls := calls w1\<rparr>"
      unfolding w1_def by (simp add: Reconcile_ok [OF full] ds1_def l_def)
    have h: "getFault w1 = None" "dataStores w1 (NamespacedName request) = Some ds1"
      "contents w1 (Certificate (CertificateAuthority (TLSConfig (Spec ds1)))) = Inr a"
      "contents w1 (Certificate (ClientCertificate (TLSConfig (Spec ds1)))) = Inr b"
      "contents w1 (PrivateKey (ClientCertificate (TLSConfig (Spec ds1)))) = Inr c"
      "listFault w1 = None" "updateFault w1 = None"
      "tenantControlPlanes w1 = tenantControlPlanes w"
      "channel w1 = channel w @ map GenericEvent (tenantControlPlanes w)"
      by (subst w1, simp add: full ds1_def)+
    have r: "fst (Reconcile w request) = (emptyResult, None)"
      by (simp add: Reconcile_ok [OF full])
    have s: "ds1\<lparr>Status := (Status ds1)\<lparr>UsedBy := l\<rparr>\<rparr> = ds1"
      by (simp add: ds1_def)
    have t: "(dataStores w1)(NamespacedName request \<mapsto> ds1) = dataStores w1"
      using h(2) by (rule map_upd_triv)
    have "fst (Reconcile w1 request) = (emptyResult, None)"
      and "dataStores (snd (Reconcile w1 request)) = dataStores w1"
      and "channel (snd (Reconcile w1 request)) =
        channel w1 @ map GenericEvent (tenantControlPlanes w)"
      by (simp_all add: Reconcile_ok [OF h(1-7)] h(8) l_def [symmetric] s t)
    then show ?thesis
      unfolding w1_def [symmetric] emitted_def by (simp add: r h(9))
  qed
qed

subsection \<open>The status write precedes the events\<close>

text \<open>
  Claim C9. When a cycle sends an event, it writes the status first: the cycle ends with
  the sending loop run from a state in which the status update is the last call made and
  has succeeded, no event has been sent, and the stored \<^verbatim>\<open>status.usedBy\<close> of the
  descriptor is the new index, sorted and without duplicates; the index is stored still
  after each of the sends.
\<close>

theorem Reconcile_events_after_status_write:
  assumes "emitted w (snd (Reconcile w request)) \<noteq> []"
  shows "\<exists>wU ds' l.
     snd (Reconcile w request) = trigger_items wU (tenantControlPlanes w) \<and>
     channel wU = channel w \<and>
     calls wU \<noteq> [] \<and> last (calls wU) = CallStatusUpdate ds' \<and> UsedBy (Status ds') = l \<and>
     (\<forall>c \<in> set (made w wU). \<not> is_send c) \<and>
     updateFault w = None \<and>
     sorted l \<and> distinct l \<and> set l = identity ` set (tenantControlPlanes w) \<and>
     (\<forall>n \<le> length (tenantControlPlanes w).
        usedBy_at (trigger_items wU (take n (tenantControlPlanes w))) (NamespacedName request)
          = Some l)"
proof -
  from emitted_nonempty [OF assms] obtain ds a b c where h: "getFault w = None"
     "dataStores w (NamespacedName request) = Some ds"
     "contents w (Certificate (CertificateAuthority (TLSConfig (Spec ds)))) = Inr a"
     "contents w (Certificate (ClientCertificate (TLSConfig (Spec ds)))) = Inr b"
     "contents w (PrivateKey (ClientCertificate (TLSConfig (Spec ds)))) = Inr c"
     "listFault w = None" "updateFault w = None"
    by blast
  define l where "l = sort (remdups (map identity (tenantControlPlanes w)))"
  define ds' where
    "ds' = ds\<lparr>ObjectMeta := NamespacedName request, Status := (Status ds)\<lparr>UsedBy := l\<rparr>\<rparr>"
  define wU where
    "wU = w\<lparr>dataStores := (dataStores w)(NamespacedName request \<mapsto>
              ds\<lparr>Status := (Status ds)\<lparr>UsedBy := l\<rparr>\<rparr>),
       calls := calls w @ [CallGet (NamespacedName request),
          CallGetContent (Certificate (CertificateAuthority (TLSConfig (Spec ds)))),
          CallGetContent (Certificate (ClientCertificate (TLSConfig (Spec ds)))),
          CallGetContent (PrivateKey (ClientCertificate (TLSConfig (Spec ds)))),
          CallList, CallStatusUpdate ds']\<rparr>"
  have 1: "snd (Reconcile w request) = trigger_items wU (tenantControlPlanes w)"
    by (simp add: Reconcile_ok [OF h] trigger_items_eq wU_def ds'_def l_def index_eq)
  have 2: "channel wU = channel w" "calls wU \<noteq> []" "last (calls wU) = CallStatusUpdate ds'"
    "UsedBy (Status ds') = l"
    by (simp_all add: wU_def ds'_def)
  have 3: "\<forall>c \<in> set (made w wU). \<not> is_send c"
    by (simp add: wU_def made_def)
  have 4: "sorted l" "distinct l" "set l = identity ` set (tenantControlPlanes w)"
    by (simp_all add: l_def)
  have 5: "usedBy_at (trigger_items wU items) (NamespacedName request) = Some l" for items
    by (simp add: usedBy_at_def trigger_items_dataStores) (simp add: wU_def)
  show ?thesis
    apply (rule exI [of _ wU], rule exI [of _ ds'], rule exI [of _ l])
    using 1 2 3 4 h(7) by (simp add: 5)
qed

theorem Reconcile_events_after_status_write_witness:
  "emitted w_ok (snd (Reconcile w_ok req0)) \<noteq> [] \<and>
   (\<exists>wU ds' l.
     snd (Reconcile w_ok req0) = trigger_items wU (tenantControlPlanes w_ok) \<and>
     channel wU = channel w_ok \<and>
     calls wU \<noteq> [] \<and> last (calls wU) = CallStatusUpdate ds' \<and> UsedBy (Status ds') = l \<and>
     (\<forall>c \<in> set (made w_ok wU). \<not> is_send c) \<and>
     updateFault w_ok = None \<and>
     sorted l \<and> distinct l \<and> set l = identity ` set (tenantControlPlanes w_ok) \<and>
     (\<forall>n \<le> length (tenantControlPlanes w_ok).
        usedBy_at (trigger_items wU (take n (tenantControlPlanes w_ok))) (NamespacedName req0)
          = Some l))"
proof -
  have h: "emitted w_ok (snd (Reconcile w_ok req0)) \<noteq> []"
    by (simp add: Reconcile_def ops emitted_def w_ok_def req0_def ds0_def)
  from Reconcile_events_after_status_write [OF h] h show ?thesis
    by blast
qed

subsection \<open>The watch filter\<close>

text \<open>
  Claim C8. The watch predicate admits a change notification exactly when the name of its
  object equals the configured \<^verbatim>\<open>ResourceName\<close>. A change to a descriptor with another
  name is dropped: \<^verbatim>\<open>Reconcile\<close> is not invoked and the state stays as it is. An admitted
  change invokes \<^verbatim>\<open>Reconcile\<close> with the identity of the object.
\<close>

theorem watch_filter_admits_only_target:
  "(watch_filter r object \<longleftrightarrow> Name (ObjectMeta object) = ResourceName r) \<and>
   (admits r ev \<longleftrightarrow> Name (ObjectMeta (change_object ev)) = ResourceName r) \<and>
   (Name (ObjectMeta (change_object ev)) \<noteq> ResourceName r \<longrightarrow>
      on_change r w ev = (None, w)) \<and>
   (Name (ObjectMeta (change_object ev)) = ResourceName r \<longrightarrow>
      on_change r w ev =
        (Some (fst (Reconcile w \<lparr>NamespacedName = ObjectMeta (change_object ev)\<rparr>)),
         snd (Reconcile w \<lparr>NamespacedName = ObjectMeta (change_object ev)\<rparr>)))"
  by (simp add: watch_filter_def admits_def on_change_def split: prod.splits)

theorem watch_filter_admits_only_target_witness:
  "Name (ObjectMeta (change_object (Update ds0 ds_other))) \<noteq> ResourceName r0 \<and>
   \<not> admits r0 (Update ds0 ds_other) \<and>
   on_change r0 w_ok (Update ds0 ds_other) = (None, w_ok) \<and>
   Name (ObjectMeta (change_object (Create ds0))) = ResourceName r0 \<and>
   admits r0 (Create ds0) \<and>
   fst (on_change r0 w_ok (Create ds0)) = Some (fst (Reconcile w_ok req0))"
proof -
  have h1: "Name (ObjectMeta (change_object (Update ds0 ds_other))) \<noteq> ResourceName r0"
    by (simp add: ds_other_def r0_def)
  have h2: "Name (ObjectMeta (change_object (Create ds0))) = ResourceName r0"
    by (simp add: ds0_def key0_def r0_def)
  have k: "\<lparr>NamespacedName = ObjectMeta (change_object (Create ds0))\<rparr> = req0"
    by (simp add: ds0_def req0_def)
  from watch_filter_admits_only_target [of r0 ds0 "Update ds0 ds_other" w_ok]
    watch_filter_admits_only_target [of r0 ds0 "Create ds0" w_ok] h1 h2 k
  show ?thesis
    by simp
qed

subsection \<open>Events and the index\<close>

text \<open>
  Claim C2 says that a successful cycle sends exactly one event for each identity of the
  deduplicated index, in the order of the index. It fails on the state \<open>w_ok\<close>, where
  the list returns \<open>ns2/b\<close> before \<open>ns1/a\<close>: the cycle succeeds, the index written is
  \<open>ns1/a\<close>, \<open>ns2/b\<close>, and the events are sent for \<open>ns2/b\<close> and then for \<open>ns1/a\<close>.
\<close>

theorem Reconcile_events_not_in_index_order:
  "snd (fst (Reconcile w_ok req0)) = None \<and>
   usedBy_at (snd (Reconcile w_ok req0)) key0 = Some [''ns1/a'', ''ns2/b''] \<and>
   map (\<lambda>ev. identity (Object ev)) (emitted w_ok (snd (Reconcile w_ok req0))) =
     [''ns2/b'', ''ns1/a''] \<and>
   usedBy_at (snd (Reconcile w_ok req0)) key0 \<noteq>
     Some (map (\<lambda>ev. identity (Object ev)) (emitted w_ok (snd (Reconcile w_ok req0))))"
proof -
  have g: "getFault w_ok = None" "dataStores w_ok (NamespacedName req0) = Some ds0"
    "contents w_ok (Certificate (CertificateAuthority (TLSConfig (Spec ds0)))) = Inr ''PEM''"
    "contents w_ok (Certificate (ClientCertificate (TLSConfig (Spec ds0)))) = Inr ''PEM''"
    "contents w_ok (PrivateKey (ClientCertificate (TLSConfig (Spec ds0)))) = Inr ''PEM''"
    "listFault w_ok = None" "updateFault w_ok = None"
    by (simp_all add: w_ok_def req0_def)
  have t: "tenantControlPlanes w_ok = [tcp_b, tcp_a]" "channel w_ok = []"
    "NamespacedName req0 = key0"
    by (simp_all add: w_ok_def req0_def)
  have i: "identity tcp_a = ''ns1/a''" "identity tcp_b = ''ns2/b''"
    by (simp_all add: identity_def String_def getNamespacedName_def tcp_a_def tcp_b_def)
  have x: "sets_List (insert_items [tcp_b, tcp_a] sets_NewString) = [''ns1/a'', ''ns2/b'']"
    by (simp add: index_eq i del: insert_items.simps)
  show ?thesis
    by (simp add: Reconcile_ok [OF g] t x i usedBy_at_def emitted_def
        del: insert_items.simps)
qed

text \<open>
  Claim C2, amended. In every successful cycle in which the list operation was called,
  the identities of the events sent are exactly the identities of the index written to
  \<^verbatim>\<open>status.usedBy\<close>, one event is sent for each entry of the list that the list operation
  returned, in the order of that list (so exactly one for each identity when no identity
  is listed twice): the sequence of events is the list itself, entry by entry. The order
  of emission is the order of the index exactly when the listed identities are already
  sorted and without duplicates.
\<close>

theorem Reconcile_events_cover_index:
  assumes "snd (fst (Reconcile w request)) = None"
    and "CallList \<in> set (made w (snd (Reconcile w request)))"
  shows "\<exists>l. usedBy_at (snd (Reconcile w request)) (NamespacedName request) = Some l \<and>
     emitted w (snd (Reconcile w request)) = map GenericEvent (tenantControlPlanes w) \<and>
     map (\<lambda>ev. identity (Object ev)) (emitted w (snd (Reconcile w request))) =
       map identity (tenantControlPlanes w) \<and>
     set (map (\<lambda>ev. identity (Object ev)) (emitted w (snd (Reconcile w request)))) = set l \<and>
     length (emitted w (snd (Reconcile w request))) = length (tenantControlPlanes w) \<and>
     (distinct (map identity (tenantControlPlanes w)) \<longrightarrow>
        distinct (map (\<lambda>ev. identity (Object ev)) (emitted w (snd (Reconcile w request))))) \<and>
     (map (\<lambda>ev. identity (Object ev)) (emitted w (snd (Reconcile w request))) = l \<longleftrightarrow>
        sorted (map identity (tenantControlPlanes w)) \<and>
        distinct (map identity (tenantControlPlanes w)))"
proof -
  from listed_ok [OF assms] obtain ds a b c where h: "getFault w = None"
     "dataStores w (NamespacedName request) = Some ds"
     "contents w (Certificate (CertificateAuthority (TLSConfig (Spec ds)))) = Inr a"
     "contents w (Certificate (ClientCertificate (TLSConfig (Spec ds)))) = Inr b"
     "contents w (PrivateKey (ClientCertificate (TLSConfig (Spec ds)))) = Inr c"
     "listFault w = None" "updateFault w = None"
    by blast
  have m: "map ((\<lambda>ev. identity (Object ev)) \<circ> GenericEvent) items = map identity items"
    for items
    by (simp add: comp_def)
  have e: "xs = sort (remdups xs) \<longleftrightarrow> sorted xs \<and> distinct xs" for xs :: "string list"
    using sort_remdups_id_iff [of xs] by auto
  show ?thesis
    by (simp add: Reconcile_ok [OF h] usedBy_at_def emitted_def index_eq m e del: set_map)
qed

theorem Reconcile_events_cover_index_witness:
  "snd (fst (Reconcile w_dup req0)) = None \<and>
   CallList \<in> set (made w_dup (snd (Reconcile w_dup req0))) \<and>
   (\<exists>l. usedBy_at (snd (Reconcile w_dup req0)) (NamespacedName req0) = Some l \<and>
     emitted w_dup (snd (Reconcile w_dup req0)) =
       [GenericEvent tcp_a, GenericEvent tcp_b, GenericEvent tcp_a] \<and>
     set (map (\<lambda>ev. identity (Object ev)) (emitted w_dup (snd (Reconcile w_dup req0)))) = set l \<and>
     length (emitted w_dup (snd (Reconcile w_dup req0))) = 3)"
proof -
  have h1: "snd (fst (Reconcile w_dup req0)) = None"
    by (simp add: Reconcile_def ops w_dup_def w_ok_def req0_def ds0_def)
  have h2: "CallList \<in> set (made w_dup (snd (Reconcile w_dup req0)))"
    by (simp add: Reconcile_def ops made_def w_dup_def w_ok_def req0_def ds0_def)
  have t: "tenantControlPlanes w_dup = [tcp_a, tcp_b, tcp_a]"
    by (simp add: w_dup_def)
  from Reconcile_events_cover_index [OF h1 h2] obtain l where
    "usedBy_at (snd (Reconcile w_dup req0)) (NamespacedName req0) = Some l"
    "emitted w_dup (snd (Reconcile w_dup req0)) = map GenericEvent (tenantControlPlanes w_dup)"
    "set (map (\<lambda>ev. identity (Object ev)) (emitted w_dup (snd (Reconcile w_dup req0)))) = set l"
    by blast
  with h1 h2 t show ?thesis
    by simp
qed

subsection \<open>The error of a failed validation\<close>

text \<open>
  Claim C3 says that when exactly one material fails to resolve, the error returned is
  tagged with the material that failed. It fails for the two client materials: on
  \<open>w_crt_fails\<close> only the client certificate fails, on \<open>w_pk_fails\<close> only the client
  private key fails, and \<^verbatim>\<open>Reconcile\<close> returns the same error in both, with the message
  \<open>invalid Client Certificate data\<close>.
\<close>

theorem Reconcile_client_materials_share_tag:
  "fst (client_Get w_crt_fails (NamespacedName req0)) = Inr ds0 \<and>
   \<not> isl (contents w_crt_fails ca0) \<and> isl (contents w_crt_fails crt0) \<and>
   \<not> isl (contents w_crt_fails pk0) \<and>
   fst (client_Get w_pk_fails (NamespacedName req0)) = Inr ds0 \<and>
   \<not> isl (contents w_pk_fails ca0) \<and> \<not> isl (contents w_pk_fails crt0) \<and>
   isl (contents w_pk_fails pk0) \<and>
   snd (fst (Reconcile w_crt_fails req0)) =
     Some (Wrap (Failure ''no secret'') ''invalid Client Certificate data'') \<and>
   snd (fst (Reconcile w_pk_fails req0)) =
     Some (Wrap (Failure ''no secret'') ''invalid Client Certificate data'') \<and>
   fst (Reconcile w_crt_fails req0) = fst (Reconcile w_pk_fails req0)"
  by (simp add: Reconcile_def ops w_crt_fails_def w_pk_fails_def w_ok_def req0_def ds0_def
      ca0_def crt0_def pk0_def)

text \<open>
  Claim C3, amended. For a fetched descriptor of which exactly one material fails to
  resolve, with an error \<open>e\<close>, \<^verbatim>\<open>Reconcile\<close> returns \<open>e\<close> wrapped with a message that
  names the part of the TLS configuration the material belongs to:
  \<open>invalid Certificate Authority data\<close> for the CA certificate, and
  \<open>invalid Client Certificate data\<close> for the client certificate and for the client
  private key alike.
\<close>

theorem Reconcile_validation_error_wrapped:
  assumes "fst (client_Get w (NamespacedName request)) = Inr ds"
  shows
   "(contents w (Certificate (CertificateAuthority (TLSConfig (Spec ds)))) = Inl e \<and>
     \<not> isl (contents w (Certificate (ClientCertificate (TLSConfig (Spec ds))))) \<and>
     \<not> isl (contents w (PrivateKey (ClientCertificate (TLSConfig (Spec ds))))) \<longrightarrow>
     fst (Reconcile w request) =
       (\<lparr>Requeue = False, RequeueAfter = 0\<rparr>,
        Some (Wrap e ''invalid Certificate Authority data''))) \<and>
    (\<not> isl (contents w (Certificate (CertificateAuthority (TLSConfig (Spec ds))))) \<and>
     contents w (Certificate (ClientCertificate (TLSConfig (Spec ds)))) = Inl e \<and>
     \<not> isl (contents w (PrivateKey (ClientCertificate (TLSConfig (Spec ds))))) \<longrightarrow>
     fst (Reconcile w request) =
       (\<lparr>Requeue = False, RequeueAfter = 0\<rparr>,
        Some (Wrap e ''invalid Client Certificate data''))) \<and>
    (\<not> isl (contents w (Certificate (CertificateAuthority (TLSConfig (Spec ds))))) \<and>
     \<not> isl (contents w (Certificate (ClientCertificate (TLSConfig (Spec ds))))) \<and>
     contents w (PrivateKey (ClientCertificate (TLSConfig (Spec ds)))) = Inl e \<longrightarrow>
     fst (Reconcile w request) =
       (\<lparr>Requeue = False, RequeueAfter = 0\<rparr>,
        Some (Wrap e ''invalid Client Certificate data'')))"
  using assms
  by (auto simp add: Reconcile_def ops emptyResult_def split: option.splits sum.splits)

theorem Reconcile_validation_error_wrapped_witness:
  "fst (client_Get w_ca_fails (NamespacedName req0)) = Inr ds0 \<and>
   contents w_ca_fails (Certificate (CertificateAuthority (TLSConfig (Spec ds0)))) =
     Inl (Failure ''no secret'') \<and>
   \<not> isl (contents w_ca_fails (Certificate (ClientCertificate (TLSConfig (Spec ds0))))) \<and>
   \<not> isl (contents w_ca_fails (PrivateKey (ClientCertificate (TLSConfig (Spec ds0))))) \<and>
   fst (Reconcile w_ca_fails req0) =
     (\<lparr>Requeue = False, RequeueAfter = 0\<rparr>,
      Some (Wrap (Failure ''no secret'') ''invalid Certificate Authority data''))"
proof -
  have h1: "fst (client_Get w_ca_fails (NamespacedName req0)) = Inr ds0"
    by (simp add: client_Get_def Let_def w_ca_fails_def w_ok_def req0_def ds0_def)
  have h2: "contents w_ca_fails (Certificate (CertificateAuthority (TLSConfig (Spec ds0)))) =
     Inl (Failure ''no secret'')"
    and h3: "\<not> isl (contents w_ca_fails (Certificate (ClientCertificate (TLSConfig (Spec ds0)))))"
    and h4: "\<not> isl (contents w_ca_fails (PrivateKey (ClientCertificate (TLSConfig (Spec ds0)))))"
    by (simp_all add: w_ca_fails_def ds0_def ca0_def crt0_def pk0_def)
  from Reconcile_validation_error_wrapped [OF h1, of "Failure ''no secret''"] h1 h2 h3 h4
  show ?thesis
    by blast
qed

end
